theory Spec2Isabelle
  imports Main "HOL-Library.AList"
begin

section \<open>The values the client sends, and their JSON text\<close>

text \<open>
  The client of \<^verbatim>\<open>sdk/python/memory_mesh/__init__.py\<close> hands Python values (the memory
  records, the filters) to \<^verbatim>\<open>requests\<close> and to \<^verbatim>\<open>json.dumps\<close>. These values are
  modelled by the type \<open>json\<close>: \<open>None\<close>, booleans, integers (unbounded, as in Python),
  strings, lists and dictionaries. A dictionary is an association list in insertion
  order, as a Python \<open>dict\<close> is; its keys are strings. The strings of a value that is sent
  are sequences of code points below 256 (the type \<open>char\<close>), and a value that is sent
  holds no floating-point number: the type has no constructor for one.

  The encoder \<open>json_dumps\<close> and the decoder \<open>json_loads\<close> of this section are about these
  values and the text written for them: the decoder is there to say that the text the
  client writes reads back as the value. It is not what reads a response: what a
  response decodes to is part of the response (section on the HTTP library below), with
  floats and every code point.
\<close>

datatype json =
    JNull
  | JBool bool
  | JInt int
  | JString string
  | JArray "json list"
  | JObject "(string \<times> json) list"

text \<open>
  A Python dictionary holds a key once. \<open>wf_json\<close> says so of a value of the model, at
  every depth: the values a caller can pass are the well-formed ones.
\<close>

fun wf_json :: "json \<Rightarrow> bool" where
  "wf_json (JArray vs) = list_all wf_json vs"
| "wf_json (JObject kvs) = (distinct (map fst kvs) \<and> list_all (\<lambda>kv. wf_json (snd kv)) kvs)"
| "wf_json _ = True"

subsection \<open>Encoding: \<^verbatim>\<open>json.dumps\<close> with its default arguments\<close>

text \<open>
  \<^verbatim>\<open>json.dumps\<close> with \<^verbatim>\<open>ensure_ascii=True\<close> and the separators \<^verbatim>\<open>", "\<close> and \<^verbatim>\<open>": "\<close>.
  Inside a string, the quote and the backslash are escaped, the control characters
  \<^verbatim>\<open>\b \f \n \r \t\<close> have their short escapes, and every other character outside the
  printable ASCII range (space to tilde) is written \<^verbatim>\<open>\u00xx\<close> with lowercase hexadecimal
  digits. \<open>CHR 0x22\<close> is the double quote and \<open>CHR 0x5C\<close> the backslash.
\<close>

definition hexdigit :: "nat \<Rightarrow> char" where
  "hexdigit n = ''0123456789abcdef'' ! (n mod 16)"

definition escape_char :: "char \<Rightarrow> string" where
  "escape_char c =
    (if c = CHR 0x22 then [CHR 0x5C, CHR 0x22]
     else if c = CHR 0x5C then [CHR 0x5C, CHR 0x5C]
     else if c = CHR 0x0A then [CHR 0x5C, CHR ''n'']
     else if c = CHR 0x0D then [CHR 0x5C, CHR ''r'']
     else if c = CHR 0x09 then [CHR 0x5C, CHR ''t'']
     else if c = CHR 0x08 then [CHR 0x5C, CHR ''b'']
     else if c = CHR 0x0C then [CHR 0x5C, CHR ''f'']
     else if (32::nat) \<le> of_char c \<and> of_char c \<le> (126::nat) then [c]
     else [CHR 0x5C, CHR ''u'', CHR ''0'', CHR ''0'',
           hexdigit (of_char c div 16), hexdigit (of_char c mod 16)])"

definition encode_basestring_ascii :: "string \<Rightarrow> string" where
  "encode_basestring_ascii s = CHR 0x22 # concat (map escape_char s) @ [CHR 0x22]"

fun digits :: "nat \<Rightarrow> string" where
  "digits n = (if n < 10 then [''0123456789'' ! n]
               else digits (n div 10) @ [''0123456789'' ! (n mod 10)])"

declare digits.simps [simp del]

definition int_repr :: "int \<Rightarrow> string" where
  "int_repr i = (if i < 0 then CHR ''-'' # digits (nat (- i)) else digits (nat i))"

fun join :: "string \<Rightarrow> string list \<Rightarrow> string" where
  "join sep [] = []"
| "join sep [x] = x"
| "join sep (x # y # ys) = x @ sep @ join sep (y # ys)"

fun json_dumps :: "json \<Rightarrow> string" where
  "json_dumps JNull = ''null''"
| "json_dumps (JBool b) = (if b then ''true'' else ''false'')"
| "json_dumps (JInt i) = int_repr i"
| "json_dumps (JString s) = encode_basestring_ascii s"
| "json_dumps (JArray vs) = ''['' @ join '', '' (map json_dumps vs) @ '']''"
| "json_dumps (JObject kvs) =
     ''{'' @
     join '', ''
       (map (\<lambda>kv. encode_basestring_ascii (fst kv) @ '': '' @ json_dumps (snd kv)) kvs) @
     ''}''"

subsection \<open>Decoding: \<^verbatim>\<open>json.loads\<close> on the text of such a value\<close>

text \<open>
  The decoder follows \<^verbatim>\<open>json.decoder\<close> and \<^verbatim>\<open>json.scanner\<close>: \<open>scanstring\<close> reads a
  string after its opening quote (strict mode: a raw control character is an error),
  \<open>parse_value\<close> is \<^verbatim>\<open>scan_once\<close>, \<open>parse_elems\<close> and \<open>parse_members\<close> are the loops of
  \<^verbatim>\<open>JSONArray\<close> and \<^verbatim>\<open>JSONObject\<close>, and \<open>dict\<close> builds the dictionary from the list of pairs
  (a repeated key keeps its first position and its last value). The result \<open>None\<close> is a
  text that is not the JSON text of a value of the type \<open>json\<close>. A number is read as
  \<^verbatim>\<open>-?(0|[1-9][0-9]*)\<close>; a fraction or an exponent after it is left in the rest of the input,
  where no caller accepts it.
\<close>

definition is_ws :: "char \<Rightarrow> bool" where
  "is_ws c = (c = CHR '' '' \<or> c = CHR 0x09 \<or> c = CHR 0x0A \<or> c = CHR 0x0D)"

definition skip_ws :: "string \<Rightarrow> string" where
  "skip_ws s = dropWhile is_ws s"

definition is_digit :: "char \<Rightarrow> bool" where
  "is_digit c = ((48::nat) \<le> of_char c \<and> of_char c \<le> (57::nat))"

definition hexval :: "char \<Rightarrow> nat option" where
  "hexval c =
    (let n = (of_char c :: nat) in
     if 48 \<le> n \<and> n \<le> 57 then Some (n - 48)
     else if 97 \<le> n \<and> n \<le> 102 then Some (n - 87)
     else if 65 \<le> n \<and> n \<le> 70 then Some (n - 55)
     else None)"

definition backslash :: "char \<Rightarrow> char option" where
  "backslash e =
    (if e = CHR 0x22 then Some (CHR 0x22)
     else if e = CHR 0x5C then Some (CHR 0x5C)
     else if e = CHR ''/'' then Some (CHR ''/'')
     else if e = CHR ''b'' then Some (CHR 0x08)
     else if e = CHR ''f'' then Some (CHR 0x0C)
     else if e = CHR ''n'' then Some (CHR 0x0A)
     else if e = CHR ''r'' then Some (CHR 0x0D)
     else if e = CHR ''t'' then Some (CHR 0x09)
     else None)"

definition decode_uXXXX :: "string \<Rightarrow> nat option" where
  "decode_uXXXX s =
    (case s of
       h1 # h2 # h3 # h4 # _ \<Rightarrow>
         (case (hexval h1, hexval h2, hexval h3, hexval h4) of
            (Some a, Some b, Some c, Some d) \<Rightarrow> Some (((a * 16 + b) * 16 + c) * 16 + d)
          | _ \<Rightarrow> None)
     | _ \<Rightarrow> None)"

fun scanstring :: "string \<Rightarrow> (string \<times> string) option" where
  "scanstring [] = None"
| "scanstring (c # r) =
    (if c = CHR 0x22 then Some ([], r)
     else if c = CHR 0x5C then
       (case r of
          [] \<Rightarrow> None
        | e # r' \<Rightarrow>
            if e = CHR ''u'' then
              (case decode_uXXXX r' of
                 None \<Rightarrow> None
               | Some n \<Rightarrow>
                   if n < 256
                   then map_option (\<lambda>(s, t). (char_of n # s, t)) (scanstring (drop 4 r'))
                   else None)
            else
              (case backslash e of
                 None \<Rightarrow> None
               | Some ch \<Rightarrow> map_option (\<lambda>(s, t). (ch # s, t)) (scanstring r')))
     else if (of_char c :: nat) < 32 then None
     else map_option (\<lambda>(s, t). (c # s, t)) (scanstring r))"

definition digits_val :: "string \<Rightarrow> nat" where
  "digits_val ds = foldl (\<lambda>a c. 10 * a + (of_char c - 48)) 0 ds"

definition scan_int :: "string \<Rightarrow> (int \<times> string) option" where
  "scan_int s =
    (let neg = (s \<noteq> [] \<and> hd s = CHR ''-'');
         r = (if neg then tl s else s);
         ds = takeWhile is_digit r
     in if ds = [] then None
        else if hd ds = CHR ''0'' then Some (0, tl r)
        else Some (if neg then - int (digits_val ds) else int (digits_val ds),
                   dropWhile is_digit r))"

definition dict :: "(string \<times> json) list \<Rightarrow> (string \<times> json) list" where
  "dict pairs = foldl (\<lambda>d kv. AList.update (fst kv) (snd kv) d) [] pairs"

text \<open>
  The three mutually recursive functions consume their input: the tests
  \<open>length r < length s\<close> on what \<open>parse_value\<close> leaves make that visible to the termination
  proof. They hold for every result of \<open>parse_value\<close> (lemma \<open>parse_consumes\<close>), so they
  change no result of the decoder.
\<close>

lemma length_skip_ws: "length (skip_ws s) \<le> length s"
  by (simp add: skip_ws_def length_dropWhile_le)

lemma skip_ws_Cons_length: "skip_ws a = c # b \<Longrightarrow> Suc (length b) \<le> length a"
  using length_skip_ws [of a] by simp

lemma scanstring_length: "scanstring r = Some (k, t) \<Longrightarrow> length t < length r"
proof (induction r arbitrary: k t rule: scanstring.induct)
  case 1
  then show ?case by simp
next
  case (2 c r)
  show ?case
  proof (cases "c = CHR 0x22")
    case True
    with 2(4) show ?thesis by simp
  next
    case nq: False
    show ?thesis
    proof (cases "c = CHR 0x5C")
      case True
      then obtain e r' where r: "r = e # r'"
        using 2(4) nq by (cases r) auto
      show ?thesis
      proof (cases "e = CHR ''u''")
        case u: True
        then obtain n k' where n: "decode_uXXXX r' = Some n" "n < 256"
          and s: "scanstring (drop 4 r') = Some (k', t)"
          using 2(4) nq True r by (auto split: option.splits if_splits)
        from 2(1) [OF nq True r u n(1) n(2) s] show ?thesis
          using r by simp
      next
        case nu: False
        then obtain ch k' where ch: "backslash e = Some ch"
          and s: "scanstring r' = Some (k', t)"
          using 2(4) nq True r by (auto split: option.splits if_splits)
        from 2(2) [OF nq True r nu ch s] show ?thesis
          using r by simp
      qed
    next
      case nb: False
      then obtain k' where s: "scanstring r = Some (k', t)" and c: "\<not> (of_char c :: nat) < 32"
        using 2(4) nq by (auto split: option.splits if_splits)
      from 2(3) [OF nq nb c s] show ?thesis by simp
    qed
  qed
qed

function parse_value :: "string \<Rightarrow> (json \<times> string) option"
  and parse_elems :: "string \<Rightarrow> (json list \<times> string) option"
  and parse_members :: "string \<Rightarrow> ((string \<times> json) list \<times> string) option"
where
  "parse_value [] = None"
| "parse_value (c # r) =
    (if c = CHR 0x22 then map_option (\<lambda>(s, t). (JString s, t)) (scanstring r)
     else if c = CHR ''{'' then
       (case skip_ws r of
          [] \<Rightarrow> None
        | d # r' \<Rightarrow>
            if d = CHR ''}'' then Some (JObject [], r')
            else map_option (\<lambda>(ps, t). (JObject (dict ps), t)) (parse_members (skip_ws r)))
     else if c = CHR ''['' then
       (case skip_ws r of
          [] \<Rightarrow> None
        | d # r' \<Rightarrow>
            if d = CHR '']'' then Some (JArray [], r')
            else map_option (\<lambda>(vs, t). (JArray vs, t)) (parse_elems (skip_ws r)))
     else if take 4 (c # r) = ''null'' then Some (JNull, drop 3 r)
     else if take 4 (c # r) = ''true'' then Some (JBool True, drop 3 r)
     else if take 5 (c # r) = ''false'' then Some (JBool False, drop 4 r)
     else map_option (\<lambda>(i, t). (JInt i, t)) (scan_int (c # r)))"
| "parse_elems s =
    (case parse_value s of
       None \<Rightarrow> None
     | Some (v, r) \<Rightarrow>
         if length r < length s then
           (case skip_ws r of
              [] \<Rightarrow> None
            | c # r' \<Rightarrow>
                if c = CHR '','' then
                  map_option (\<lambda>(vs, t). (v # vs, t)) (parse_elems (skip_ws r'))
                else if c = CHR '']'' then Some ([v], r')
                else None)
         else None)"
| "parse_members [] = None"
| "parse_members (q # r) =
    (if q \<noteq> CHR 0x22 then None
     else
       (case scanstring r of
          None \<Rightarrow> None
        | Some (k, r1) \<Rightarrow>
            (case skip_ws r1 of
               [] \<Rightarrow> None
             | c # r2 \<Rightarrow>
                 if c \<noteq> CHR '':'' then None
                 else
                   (case parse_value (skip_ws r2) of
                      None \<Rightarrow> None
                    | Some (v, r3) \<Rightarrow>
                        if length r3 < length (skip_ws r2) then
                          (case skip_ws r3 of
                             [] \<Rightarrow> None
                           | d # r4 \<Rightarrow>
                               if d = CHR '','' then
                                 map_option (\<lambda>(ps, t). ((k, v) # ps, t))
                                   (parse_members (skip_ws r4))
                               else if d = CHR ''}'' then Some ([(k, v)], r4)
                               else None)
                        else None))))"
  by pat_completeness auto
termination
  apply (relation "measure (\<lambda>x. case x of
            Inl s \<Rightarrow> 2 * length s
          | Inr (Inl s) \<Rightarrow> 2 * length s + 1
          | Inr (Inr s) \<Rightarrow> 2 * length s + 1)")
  apply simp_all
  subgoal by (drule skip_ws_Cons_length) simp
  subgoal by (drule skip_ws_Cons_length) simp
  subgoal for s x2 x y x21 x22
    using skip_ws_Cons_length [of y "CHR '',''" x22] length_skip_ws [of x22] by simp
  subgoal for q r x2 x y x21 x22
    using scanstring_length [of r x y] skip_ws_Cons_length [of y "CHR '':''" x22]
      length_skip_ws [of x22] by simp
  subgoal for q r x2 x y x21 x22 x2a xa ya x21a x22a
    using scanstring_length [of r x y] skip_ws_Cons_length [of y "CHR '':''" x22]
      length_skip_ws [of x22] skip_ws_Cons_length [of ya "CHR '',''" x22a]
      length_skip_ws [of x22a] by simp
  done

declare parse_elems.simps [simp del]

text \<open>
  \<^verbatim>\<open>json.loads\<close>: white space, one value, white space, and nothing else.
\<close>

definition json_loads :: "string \<Rightarrow> json option" where
  "json_loads s =
    (case parse_value (skip_ws s) of
       None \<Rightarrow> None
     | Some (v, r) \<Rightarrow> if skip_ws r = [] then Some v else None)"

section \<open>The HTTP library as the client uses it\<close>

text \<open>
  A request as \<^verbatim>\<open>requests.post\<close> and \<^verbatim>\<open>requests.get\<close> receive it: the URL and the keyword
  arguments \<^verbatim>\<open>params\<close>, \<^verbatim>\<open>json\<close> and \<^verbatim>\<open>headers\<close>. A value of \<^verbatim>\<open>params\<close> is a string or
  an integer.
\<close>

datatype verb = GET | POST

datatype param = PStr string | PInt int

record request =
  verb :: verb
  url :: string
  params :: "(string \<times> param) list"
  json :: "json option"
  headers :: "(string \<times> string) list"

text \<open>
  What \<^verbatim>\<open>response.json()\<close> returns is a Python value of any JSON shape, which the library
  decodes from the bytes of the body: \<open>None\<close>, a boolean, an integer, a float, a string,
  a list or a dictionary with strings as keys. A string (\<open>str\<close>) is a sequence of Unicode
  code points, of any size; \<open>lit\<close> is the string of a literal of the program. A float is
  held by its \<^verbatim>\<open>repr\<close> (\<^verbatim>\<open>1.5\<close>, \<^verbatim>\<open>1e+16\<close>, \<^verbatim>\<open>nan\<close>, \<^verbatim>\<open>inf\<close>); the client never looks into
  one.
\<close>

type_synonym str = "nat list"

definition lit :: "string \<Rightarrow> str" where
  "lit s = map of_char s"

datatype pyvalue =
    PyNone
  | PyBool bool
  | PyInt int
  | PyFloat string
  | PyStr str
  | PyList "pyvalue list"
  | PyDict "(str \<times> pyvalue) list"

text \<open>
  A response, as the client uses it: the status code, the bytes of the body
  (\<open>content\<close>), and what its method \<^verbatim>\<open>json()\<close> gives (\<open>decoded\<close>): the Python value the
  library decodes the body to, by the encoding it detects or is told, or \<open>None\<close> when the
  method raises because the body is not JSON. Decoding the bytes is the library's work;
  the client calls the method and uses its result, and so does the model. A dictionary
  of a decoded value holds each key once.
\<close>

record response =
  status_code :: int
  content :: string
  decoded :: "pyvalue option"

text \<open>
  The exceptions a call can end with: a failure of the transport, \<^verbatim>\<open>HTTPError\<close> (it holds
  the response, so the status code and the body), \<^verbatim>\<open>JSONDecodeError\<close> from
  \<^verbatim>\<open>response.json()\<close>, and \<^verbatim>\<open>AttributeError\<close> when the decoded value has no \<^verbatim>\<open>get\<close>.
\<close>

datatype error =
    ConnectionError
  | HTTPError response
  | JSONDecodeError
  | AttributeError

text \<open>
  The network: what the server answers to a request (or how the transport fails), and
  the requests issued so far, oldest first.
\<close>

record network =
  respond :: "request \<Rightarrow> error + response"
  sent :: "request list"

definition send :: "network \<Rightarrow> request \<Rightarrow> (error + response) \<times> network" where
  "send net req = (respond net req, net\<lparr>sent := sent net @ [req]\<rparr>)"

definition requests_post ::
  "network \<Rightarrow> string \<Rightarrow> json \<Rightarrow> (string \<times> string) list \<Rightarrow> (error + response) \<times> network" where
  "requests_post net u j h =
     send net \<lparr>verb = POST, url = u, params = [], json = Some j, headers = h\<rparr>"

definition requests_get ::
  "network \<Rightarrow> string \<Rightarrow> (string \<times> param) list \<Rightarrow> (string \<times> string) list
     \<Rightarrow> (error + response) \<times> network" where
  "requests_get net u ps h =
     send net \<lparr>verb = GET, url = u, params = ps, json = None, headers = h\<rparr>"

text \<open>
  The body \<^verbatim>\<open>requests\<close> puts on the wire for the \<^verbatim>\<open>json\<close> argument: its \<^verbatim>\<open>json.dumps\<close>.
\<close>

definition body :: "request \<Rightarrow> string option" where
  "body req = map_option json_dumps (json req)"

text \<open>
  \<^verbatim>\<open>Response.raise_for_status\<close> raises for a status code from 400 to 599, and
  \<^verbatim>\<open>Response.json\<close> returns the decoded body or raises.
\<close>

definition raise_for_status :: "response \<Rightarrow> error + unit" where
  "raise_for_status r =
     (if 400 \<le> status_code r \<and> status_code r < 600 then Inl (HTTPError r) else Inr ())"

definition response_json :: "response \<Rightarrow> error + pyvalue" where
  "response_json r =
     (case decoded r of None \<Rightarrow> Inl JSONDecodeError | Some v \<Rightarrow> Inr v)"

text \<open>
  \<^verbatim>\<open>data.get(key, default)\<close>: the value under the key or the default when \<open>data\<close> is a
  dictionary; no other decoded value has the method.
\<close>

fun dict_get :: "pyvalue \<Rightarrow> str \<Rightarrow> pyvalue \<Rightarrow> error + pyvalue" where
  "dict_get (PyDict kvs) k d = Inr (case map_of kvs k of None \<Rightarrow> d | Some v \<Rightarrow> v)"
| "dict_get _ k d = Inl AttributeError"

section \<open>The client\<close>

record MemoryMeshClient =
  api_key :: string
  base_url :: string

text \<open>
  \<^verbatim>\<open>__init__(self, api_key, base_url=None)\<close>. The argument \<open>None\<close> is the omitted base URL;
  \<^verbatim>\<open>base_url or "https://api.example.com"\<close> takes the default for \<open>None\<close> and for the empty
  string, the two falsy values of an optional string.
\<close>

definition MemoryMeshClient_init :: "string \<Rightarrow> string option \<Rightarrow> MemoryMeshClient" where
  "MemoryMeshClient_init key u =
     \<lparr>api_key = key,
      base_url = (case u of
                    None \<Rightarrow> ''https://api.example.com''
                  | Some b \<Rightarrow> if b = [] then ''https://api.example.com'' else b)\<rparr>"

text \<open>
  A call returns a value or raises; it is given the client and the network and leaves
  both behind.
\<close>

record outcome =
  returned :: "error + pyvalue"
  client_after :: MemoryMeshClient
  network_after :: network

text \<open>The arguments \<open>add_memories\<close> passes to \<^verbatim>\<open>requests.post\<close>, as the request they make.\<close>

definition add_memories_request :: "MemoryMeshClient \<Rightarrow> json list \<Rightarrow> request" where
  "add_memories_request self memories =
     \<lparr>verb = POST,
      url = base_url self @ ''/api/v1/mesh/memories'',
      params = [],
      json = Some (JObject [(''memories'', JArray memories)]),
      headers = [(''Content-Type'', ''application/json''),
                 (''Authorization'', ''Bearer '' @ api_key self)]\<rparr>"

definition add_memories :: "MemoryMeshClient \<Rightarrow> network \<Rightarrow> json list \<Rightarrow> outcome" where
  "add_memories self net memories =
     (let (response, net') =
            requests_post net
              (base_url self @ ''/api/v1/mesh/memories'')
              (JObject [(''memories'', JArray memories)])
              [(''Content-Type'', ''application/json''),
               (''Authorization'', ''Bearer '' @ api_key self)]
      in \<lparr>returned =
            (case response of
               Inl e \<Rightarrow> Inl e
             | Inr r \<Rightarrow>
                 (case raise_for_status r of
                    Inl e \<Rightarrow> Inl e
                  | Inr _ \<Rightarrow>
                      (case response_json r of
                         Inl e \<Rightarrow> Inl e
                       | Inr data \<Rightarrow> dict_get data (lit ''stored_ids'') (PyList [])))),
          client_after = self,
          network_after = net'\<rparr>)"

text \<open>
  \<^verbatim>\<open>query_memories(self, query, limit=10, filters=None)\<close>. An omitted \<open>limit\<close> is \<open>None\<close>
  here and stands for 10; \<open>filters\<close> is \<open>None\<close> or a dictionary, and \<^verbatim>\<open>if filters:\<close> holds
  for a dictionary that is not empty.
\<close>

definition query_params ::
  "string \<Rightarrow> int option \<Rightarrow> (string \<times> json) list option \<Rightarrow> (string \<times> param) list" where
  "query_params query limit filters =
     (let params = [(''q'', PStr query),
                    (''limit'', PInt (case limit of None \<Rightarrow> 10 | Some n \<Rightarrow> n))]
      in case filters of
           None \<Rightarrow> params
         | Some f \<Rightarrow>
             if f = [] then params
             else AList.update ''filters'' (PStr (json_dumps (JObject f))) params)"

definition query_memories_request ::
  "MemoryMeshClient \<Rightarrow> string \<Rightarrow> int option \<Rightarrow> (string \<times> json) list option \<Rightarrow> request" where
  "query_memories_request self query limit filters =
     \<lparr>verb = GET,
      url = base_url self @ ''/api/v1/mesh/memories/query'',
      params = query_params query limit filters,
      json = None,
      headers = [(''Authorization'', ''Bearer '' @ api_key self)]\<rparr>"

definition query_memories ::
  "MemoryMeshClient \<Rightarrow> network \<Rightarrow> string \<Rightarrow> int option \<Rightarrow> (string \<times> json) list option
     \<Rightarrow> outcome" where
  "query_memories self net query limit filters =
     (let params = query_params query limit filters;
          (response, net') =
            requests_get net
              (base_url self @ ''/api/v1/mesh/memories/query'')
              params
              [(''Authorization'', ''Bearer '' @ api_key self)]
      in \<lparr>returned =
            (case response of
               Inl e \<Rightarrow> Inl e
             | Inr r \<Rightarrow>
                 (case raise_for_status r of
                    Inl e \<Rightarrow> Inl e
                  | Inr _ \<Rightarrow>
                      (case response_json r of
                         Inl e \<Rightarrow> Inl e
                       | Inr data \<Rightarrow> dict_get data (lit ''hits'') (PyList [])))),
          client_after = self,
          network_after = net'\<rparr>)"

text \<open>
  A server that answers every request with one fixed response (its status code, its
  body, and what the body decodes to), and has seen no request yet: the mocked server
  of the test cases.
\<close>

definition mocked_server :: "int \<Rightarrow> string \<Rightarrow> pyvalue option \<Rightarrow> network" where
  "mocked_server code b v =
     \<lparr>respond = (\<lambda>req. Inr \<lparr>status_code = code, content = b, decoded = v\<rparr>), sent = []\<rparr>"

section \<open>Notions used in the proofs\<close>

text \<open>
  \<open>no_digit_start\<close>: the text after a number does not go on with a digit.
  \<open>starts_value\<close>: the text starts with a character that is neither white space nor a
  closing bracket. \<open>dumps_member\<close>: one member of an object as \<open>json_dumps\<close> writes it.
  \<open>is_string_sequence\<close>: a list whose elements are all strings.
\<close>

definition no_digit_start :: "string \<Rightarrow> bool" where
  "no_digit_start t = (case t of [] \<Rightarrow> True | c # _ \<Rightarrow> \<not> is_digit c)"

definition starts_value :: "string \<Rightarrow> bool" where
  "starts_value s =
     (case s of [] \<Rightarrow> False | c # _ \<Rightarrow> \<not> is_ws c \<and> c \<noteq> CHR '']'' \<and> c \<noteq> CHR ''}'')"

definition dumps_member :: "string \<times> json \<Rightarrow> string" where
  "dumps_member kv = encode_basestring_ascii (fst kv) @ '': '' @ json_dumps (snd kv)"

fun is_string_sequence :: "pyvalue \<Rightarrow> bool" where
  "is_string_sequence (PyList vs) = list_all (\<lambda>v. case v of PyStr _ \<Rightarrow> True | _ \<Rightarrow> False) vs"
| "is_string_sequence _ = False"

section \<open>The codec: decoding an encoded value gives the value back\<close>

subsection \<open>Integers\<close>

text \<open>
  The decimal digits of a number are digits, start with a zero only for zero, and have
  the number as their value; \<open>scan_int\<close> reads back what \<open>int_repr\<close> wrote when no digit
  follows.
\<close>

lemma digit_char_cases:
  assumes "k < 10"
  shows "k = 0 \<or> k = 1 \<or> k = 2 \<or> k = 3 \<or> k = 4 \<or> k = 5 \<or> k = 6 \<or> k = 7 \<or> k = 8 \<or> k = (9::nat)"
  using assms by arith

lemma digit_char_is_digit: "k < 10 \<Longrightarrow> is_digit (''0123456789'' ! k)"
  using digit_char_cases [of k] by (auto simp add: is_digit_def)

lemma digit_char_val: "k < 10 \<Longrightarrow> (of_char (''0123456789'' ! k) :: nat) - 48 = k"
  using digit_char_cases [of k] by auto

lemma digit_char_zero: "k < 10 \<Longrightarrow> (''0123456789'' ! k = CHR ''0'') = (k = 0)"
  using digit_char_cases [of k] by auto

lemma digits_nonempty: "digits n \<noteq> []"
  by (subst digits.simps) simp

lemma digits_all_digit: "c \<in> set (digits n) \<Longrightarrow> is_digit c"
proof (induction n arbitrary: c rule: digits.induct)
  case (1 n)
  show ?case
  proof (cases "n < 10")
    case True
    with 1(2) show ?thesis
      by (subst (asm) digits.simps) (simp add: digit_char_is_digit)
  next
    case False
    with 1(2) have "c \<in> set (digits (n div 10)) \<or> c = ''0123456789'' ! (n mod 10)"
      by (subst (asm) digits.simps) auto
    then show ?thesis
      using 1(1) [OF False] by (auto simp add: digit_char_is_digit)
  qed
qed

lemma digits_val_snoc: "digits_val (ds @ [c]) = 10 * digits_val ds + (of_char c - 48)"
  by (simp add: digits_val_def)

lemma digits_val_digits: "digits_val (digits n) = n"
proof (induction n rule: digits.induct)
  case (1 n)
  show ?case
  proof (cases "n < 10")
    case True
    then show ?thesis
      by (subst digits.simps) (simp add: digits_val_def digit_char_val)
  next
    case False
    have "digits_val (digits n) =
        10 * digits_val (digits (n div 10)) + (of_char (''0123456789'' ! (n mod 10)) - 48)"
      using False by (subst digits.simps) (simp add: digits_val_snoc)
    also have "\<dots> = 10 * (n div 10) + n mod 10"
      using 1 [OF False] by (simp add: digit_char_val)
    finally show ?thesis by simp
  qed
qed

lemma hd_digits_zero: "(hd (digits n) = CHR ''0'') = (n = 0)"
proof (induction n rule: digits.induct)
  case (1 n)
  show ?case
  proof (cases "n < 10")
    case True
    then show ?thesis
      by (subst digits.simps) (simp add: digit_char_zero)
  next
    case False
    have "hd (digits n) = hd (digits (n div 10))"
      using False by (subst digits.simps) (simp add: digits_nonempty)
    then show ?thesis
      using 1 [OF False] False by simp
  qed
qed

lemma digits_zero: "digits 0 = ''0''"
  by (subst digits.simps) simp

lemma takeWhile_digits: "no_digit_start t \<Longrightarrow> takeWhile is_digit (digits n @ t) = digits n"
  by (cases t) (simp_all add: no_digit_start_def takeWhile_append2 digits_all_digit)

lemma dropWhile_digits: "no_digit_start t \<Longrightarrow> dropWhile is_digit (digits n @ t) = t"
  by (cases t) (simp_all add: no_digit_start_def dropWhile_append2 digits_all_digit)

lemma hd_digits_not_minus: "hd (digits n) \<noteq> CHR ''-''"
proof
  assume m: "hd (digits n) = CHR ''-''"
  have "hd (digits n) \<in> set (digits n)"
    by (simp add: digits_nonempty)
  then have "is_digit (hd (digits n))"
    by (rule digits_all_digit)
  with m show False
    by (simp add: is_digit_def)
qed

lemma scan_int_int_repr:
  assumes "no_digit_start t"
  shows "scan_int (int_repr i @ t) = Some (i, t)"
proof (cases "i < 0")
  case True
  then have pos: "nat (- i) \<noteq> 0" by simp
  have "hd (digits (nat (- i))) \<noteq> CHR ''0''"
    using pos by (simp add: hd_digits_zero)
  then show ?thesis
    using True assms
    by (simp add: scan_int_def int_repr_def Let_def takeWhile_digits dropWhile_digits
        digits_nonempty digits_val_digits)
next
  case False
  show ?thesis
  proof (cases "i = 0")
    case True
    then show ?thesis
      using assms by (simp add: scan_int_def int_repr_def Let_def digits_zero is_digit_def)
  next
    case nz: False
    with False have "nat i \<noteq> 0" by simp
    then have "hd (digits (nat i)) \<noteq> CHR ''0''"
      by (simp add: hd_digits_zero)
    then show ?thesis
      using False assms hd_digits_not_minus [of "nat i"]
      by (simp add: scan_int_def int_repr_def Let_def takeWhile_digits dropWhile_digits
          digits_nonempty digits_val_digits)
  qed
qed

subsection \<open>Dictionaries\<close>

text \<open>Building a dictionary from pairs with distinct keys keeps the pairs as they are.\<close>

lemma update_fresh: "k \<notin> fst ` set d \<Longrightarrow> AList.update k v d = d @ [(k, v)]"
  by (induction d) auto

lemma foldl_update_distinct:
  "distinct (map fst (d @ kvs)) \<Longrightarrow>
     foldl (\<lambda>d kv. AList.update (fst kv) (snd kv) d) d kvs = d @ kvs"
proof (induction kvs arbitrary: d)
  case Nil
  then show ?case by simp
next
  case (Cons kv kvs)
  have fresh: "fst kv \<notin> fst ` set d"
    using Cons.prems by auto
  have "distinct (map fst ((d @ [kv]) @ kvs))"
    using Cons.prems by simp
  from Cons.IH [OF this] show ?case
    using fresh by (simp add: update_fresh)
qed

lemma dict_distinct: "distinct (map fst kvs) \<Longrightarrow> dict kvs = kvs"
  using foldl_update_distinct [of "[]" kvs] by (simp add: dict_def)

subsection \<open>Strings\<close>

text \<open>
  \<open>scanstring\<close> reads one escaped character back as the character, and so an encoded
  string back as the string.
\<close>

lemma nibble_cases:
  assumes "k < 16"
  shows "k = 0 \<or> k = 1 \<or> k = 2 \<or> k = 3 \<or> k = 4 \<or> k = 5 \<or> k = 6 \<or> k = 7 \<or> k = 8 \<or> k = 9
    \<or> k = 10 \<or> k = 11 \<or> k = 12 \<or> k = 13 \<or> k = 14 \<or> k = (15::nat)"
  using assms by arith

lemma hexval_hexdigit: "k < 16 \<Longrightarrow> hexval (hexdigit k) = Some k"
  using nibble_cases [of k] by (auto simp add: hexval_def hexdigit_def)

lemma hexval_zero: "hexval (CHR ''0'') = Some 0"
  by (simp add: hexval_def)

lemma decode_escape:
  assumes "n < 256"
  shows "decode_uXXXX (CHR ''0'' # CHR ''0'' # hexdigit (n div 16) # hexdigit (n mod 16) # t)
    = Some n"
proof -
  from assms have "n div 16 < 16" by simp
  then show ?thesis
    by (simp add: decode_uXXXX_def hexval_zero hexval_hexdigit)
qed

lemma scanstring_escape_char:
  "scanstring (escape_char c @ t) = map_option (\<lambda>(s, u). (c # s, u)) (scanstring t)"
proof -
  consider (quote) "c = CHR 0x22" | (bs) "c = CHR 0x5C" | (nl) "c = CHR 0x0A"
    | (cr) "c = CHR 0x0D" | (tab) "c = CHR 0x09" | (b) "c = CHR 0x08" | (f) "c = CHR 0x0C"
    | (plain) "c \<noteq> CHR 0x22" "c \<noteq> CHR 0x5C" "c \<noteq> CHR 0x0A" "c \<noteq> CHR 0x0D" "c \<noteq> CHR 0x09"
        "c \<noteq> CHR 0x08" "c \<noteq> CHR 0x0C" "(32::nat) \<le> of_char c \<and> of_char c \<le> (126::nat)"
    | (other) "c \<noteq> CHR 0x22" "c \<noteq> CHR 0x5C" "c \<noteq> CHR 0x0A" "c \<noteq> CHR 0x0D" "c \<noteq> CHR 0x09"
        "c \<noteq> CHR 0x08" "c \<noteq> CHR 0x0C" "\<not> ((32::nat) \<le> of_char c \<and> of_char c \<le> (126::nat))"
    by blast
  then show ?thesis
  proof cases
    case quote
    then show ?thesis by (simp add: escape_char_def backslash_def)
  next
    case bs
    then show ?thesis by (simp add: escape_char_def backslash_def)
  next
    case nl
    then show ?thesis by (simp add: escape_char_def backslash_def)
  next
    case cr
    then show ?thesis by (simp add: escape_char_def backslash_def)
  next
    case tab
    then show ?thesis by (simp add: escape_char_def backslash_def)
  next
    case b
    then show ?thesis by (simp add: escape_char_def backslash_def)
  next
    case f
    then show ?thesis by (simp add: escape_char_def backslash_def)
  next
    case plain
    then show ?thesis by (simp add: escape_char_def)
  next
    case other
    have e: "escape_char c = [CHR 0x5C, CHR ''u'', CHR ''0'', CHR ''0'',
           hexdigit (of_char c div 16), hexdigit (of_char c mod 16)]"
      using other by (simp add: escape_char_def)
    have d: "decode_uXXXX (CHR ''0'' # CHR ''0'' # hexdigit (of_char c div 16)
        # hexdigit (of_char c mod 16) # t) = Some (of_char c)"
      by (rule decode_escape) (rule nat_of_char_less_256)
    show ?thesis
      unfolding e using d nat_of_char_less_256 [of c] by simp
  qed
qed

lemma scanstring_escaped:
  "scanstring (concat (map escape_char s) @ CHR 0x22 # t) = Some (s, t)"
  by (induction s) (simp_all add: scanstring_escape_char)

subsection \<open>White space and first characters\<close>

lemma skip_ws_space: "skip_ws (CHR '' '' # s) = skip_ws s"
  by (simp add: skip_ws_def is_ws_def)

lemma skip_ws_id: "\<not> is_ws c \<Longrightarrow> skip_ws (c # s) = c # s"
  by (simp add: skip_ws_def)

lemma skip_ws_Nil: "skip_ws [] = []"
  by (simp add: skip_ws_def)

lemma starts_value_append: "starts_value s \<Longrightarrow> starts_value (s @ t)"
  by (cases s) (simp_all add: starts_value_def)

lemma starts_value_skip_ws: "starts_value s \<Longrightarrow> skip_ws s = s"
  by (cases s) (simp_all add: starts_value_def skip_ws_id)

lemma starts_value_nonempty: "starts_value s \<Longrightarrow> s \<noteq> []"
  by (cases s) (simp_all add: starts_value_def)

lemma int_repr_start:
  "\<exists>c cs. int_repr i = c # cs \<and> (c = CHR ''-'' \<or> is_digit c)"
proof (cases "i < 0")
  case True
  then show ?thesis by (simp add: int_repr_def)
next
  case False
  obtain c cs where d: "digits (nat i) = c # cs"
    using digits_nonempty [of "nat i"] by (cases "digits (nat i)") auto
  then have "c \<in> set (digits (nat i))" by simp
  then have "is_digit c" by (rule digits_all_digit)
  with d False show ?thesis by (simp add: int_repr_def)
qed

lemma join_Cons: "join sep (x # xs) = x @ (if xs = [] then [] else sep @ join sep xs)"
  by (cases xs) simp_all

lemma starts_value_encoded: "starts_value (encode_basestring_ascii s @ t)"
  by (simp add: encode_basestring_ascii_def starts_value_def is_ws_def)

lemma starts_value_dumps: "starts_value (json_dumps v)"
proof (cases v)
  case (JInt i)
  obtain c cs where "int_repr i = c # cs" "c = CHR ''-'' \<or> is_digit c"
    using int_repr_start by blast
  then show ?thesis
    using JInt by (auto simp add: starts_value_def is_ws_def is_digit_def)
next
  case (JString s)
  then show ?thesis
    using starts_value_encoded [of s "[]"] by simp
qed (simp_all add: starts_value_def is_ws_def)

lemma dumps_nonempty: "json_dumps v \<noteq> []"
  using starts_value_dumps starts_value_nonempty by blast

lemma starts_value_join:
  "vs \<noteq> [] \<Longrightarrow> starts_value (join sep (map json_dumps vs) @ t)"
  by (cases vs) (simp_all add: join_Cons starts_value_append starts_value_dumps)

subsection \<open>Values\<close>

text \<open>
  \<open>parse_value\<close> reads back what \<open>json_dumps\<close> wrote and leaves the text after it, first
  for numbers and strings, then for the elements of an array and the members of an
  object given the same of their values, and at last for every well-formed value by
  induction.
\<close>

lemma parse_value_int:
  assumes "no_digit_start t"
  shows "parse_value (int_repr i @ t) = Some (JInt i, t)"
proof -
  obtain c cs where s: "int_repr i = c # cs" and c: "c = CHR ''-'' \<or> is_digit c"
    using int_repr_start by blast
  have ne: "c \<noteq> CHR 0x22" "c \<noteq> CHR ''{''" "c \<noteq> CHR ''[''" "c \<noteq> CHR ''n''"
    "c \<noteq> CHR ''t''" "c \<noteq> CHR ''f''"
    using c by (auto simp add: is_digit_def)
  have "parse_value (c # cs @ t) = map_option (\<lambda>(i, t). (JInt i, t)) (scan_int (c # cs @ t))"
    using ne by simp
  then show ?thesis
    using scan_int_int_repr [OF assms, of i] s by simp
qed

lemma parse_value_string:
  "parse_value (encode_basestring_ascii s @ t) = Some (JString s, t)"
  using scanstring_escaped [of s t] by (simp add: encode_basestring_ascii_def)

lemma parse_elems_last:
  assumes "parse_value (a @ CHR '']'' # t) = Some (v, CHR '']'' # t)" and "a \<noteq> []"
  shows "parse_elems (a @ CHR '']'' # t) = Some ([v], t)"
  using assms by (subst parse_elems.simps) (simp add: skip_ws_id is_ws_def)

lemma parse_elems_more:
  assumes "parse_value (a @ CHR '','' # CHR '' '' # u) = Some (v, CHR '','' # CHR '' '' # u)"
    and "a \<noteq> []" and "starts_value u"
  shows "parse_elems (a @ CHR '','' # CHR '' '' # u) =
           map_option (\<lambda>(vs, t). (v # vs, t)) (parse_elems u)"
  using assms
  by (subst parse_elems.simps)
    (simp add: skip_ws_id is_ws_def skip_ws_space starts_value_skip_ws)

lemma no_digit_start_simps:
  "no_digit_start (CHR '','' # t)" "no_digit_start (CHR '']'' # t)"
  "no_digit_start (CHR ''}'' # t)" "no_digit_start []"
  by (simp_all add: no_digit_start_def is_digit_def)

lemma parse_elems_join:
  assumes "vs \<noteq> []"
    and "\<And>v t. v \<in> set vs \<Longrightarrow> no_digit_start t \<Longrightarrow> parse_value (json_dumps v @ t) = Some (v, t)"
  shows "parse_elems (join '', '' (map json_dumps vs) @ CHR '']'' # t) = Some (vs, t)"
  using assms
proof (induction vs)
  case Nil
  then show ?case by simp
next
  case (Cons v vs)
  show ?case
  proof (cases "vs = []")
    case True
    have "parse_value (json_dumps v @ CHR '']'' # t) = Some (v, CHR '']'' # t)"
      by (rule Cons.prems(2)) (simp_all add: no_digit_start_simps)
    then show ?thesis
      using True by (simp add: parse_elems_last dumps_nonempty)
  next
    case False
    let ?u = "join '', '' (map json_dumps vs) @ CHR '']'' # t"
    have u: "starts_value ?u"
      using False by (rule starts_value_join)
    have ih: "parse_elems ?u = Some (vs, t)"
      using False Cons.prems(2) by (intro Cons.IH) simp_all
    have "parse_value (json_dumps v @ CHR '','' # CHR '' '' # ?u) = Some (v, CHR '','' # CHR '' '' # ?u)"
      by (rule Cons.prems(2)) (simp_all add: no_digit_start_simps)
    then have "parse_elems (json_dumps v @ CHR '','' # CHR '' '' # ?u) =
        map_option (\<lambda>(vs, t). (v # vs, t)) (parse_elems ?u)"
      using dumps_nonempty u by (rule parse_elems_more)
    then show ?thesis
      using False ih by (simp add: join_Cons)
  qed
qed

lemma dumps_member_start:
  "vs \<noteq> [] \<Longrightarrow> \<exists>r. join sep (map dumps_member vs) @ t = CHR 0x22 # r"
  by (cases vs) (simp_all add: join_Cons dumps_member_def encode_basestring_ascii_def)

lemma parse_members_last:
  assumes "parse_value (a @ CHR ''}'' # t) = Some (v, CHR ''}'' # t)" and "starts_value a"
  shows "parse_members (encode_basestring_ascii k @ '': '' @ a @ CHR ''}'' # t) = Some ([(k, v)], t)"
proof -
  have a: "skip_ws (a @ CHR ''}'' # t) = a @ CHR ''}'' # t"
    using assms(2) by (simp add: starts_value_skip_ws starts_value_append)
  have l: "a \<noteq> []"
    using assms(2) by (rule starts_value_nonempty)
  show ?thesis
    using scanstring_escaped [of k "'': '' @ a @ CHR ''}'' # t"] assms(1) a l
    by (simp add: encode_basestring_ascii_def skip_ws_id is_ws_def skip_ws_space)
qed

lemma parse_members_more:
  assumes "parse_value (a @ CHR '','' # CHR '' '' # CHR 0x22 # u) = Some (v, CHR '','' # CHR '' '' # CHR 0x22 # u)"
    and "starts_value a"
  shows "parse_members (encode_basestring_ascii k @ '': '' @ a @ CHR '','' # CHR '' '' # CHR 0x22 # u) =
           map_option (\<lambda>(ps, t). ((k, v) # ps, t)) (parse_members (CHR 0x22 # u))"
proof -
  have a: "skip_ws (a @ CHR '','' # CHR '' '' # CHR 0x22 # u) = a @ CHR '','' # CHR '' '' # CHR 0x22 # u"
    using assms(2) by (simp add: starts_value_skip_ws starts_value_append)
  have l: "a \<noteq> []"
    using assms(2) by (rule starts_value_nonempty)
  show ?thesis
    using scanstring_escaped [of k "'': '' @ a @ CHR '','' # CHR '' '' # CHR 0x22 # u"] assms(1) a l
    by (simp add: encode_basestring_ascii_def skip_ws_id is_ws_def skip_ws_space)
qed

lemma parse_members_join:
  assumes "kvs \<noteq> []"
    and "\<And>k v t. (k, v) \<in> set kvs \<Longrightarrow> no_digit_start t \<Longrightarrow>
           parse_value (json_dumps v @ t) = Some (v, t)"
  shows "parse_members (join '', '' (map dumps_member kvs) @ CHR ''}'' # t) = Some (kvs, t)"
  using assms
proof (induction kvs)
  case Nil
  then show ?case by simp
next
  case (Cons kv kvs)
  obtain k v where kv: "kv = (k, v)" by (cases kv)
  show ?case
  proof (cases "kvs = []")
    case True
    have "parse_value (json_dumps v @ CHR ''}'' # t) = Some (v, CHR ''}'' # t)"
      by (rule Cons.prems(2) [of k]) (simp_all add: kv no_digit_start_simps)
    then have "parse_members (encode_basestring_ascii k @ '': '' @ json_dumps v @ CHR ''}'' # t)
        = Some ([(k, v)], t)"
      using starts_value_dumps by (rule parse_members_last)
    then show ?thesis
      using True kv by (simp add: dumps_member_def)
  next
    case False
    obtain u where u: "join '', '' (map dumps_member kvs) @ CHR ''}'' # t = CHR 0x22 # u"
      using dumps_member_start [OF False] by blast
    have "parse_members (join '', '' (map dumps_member kvs) @ CHR ''}'' # t) = Some (kvs, t)"
    proof (rule Cons.IH [OF False])
      fix k' v' t'
      assume "(k', v') \<in> set kvs" and "no_digit_start t'"
      then show "parse_value (json_dumps v' @ t') = Some (v', t')"
        using Cons.prems(2) [of k' v' t'] by simp
    qed
    then have ih: "parse_members (CHR 0x22 # u) = Some (kvs, t)"
      by (simp add: u)
    have "parse_value (json_dumps v @ CHR '','' # CHR '' '' # CHR 0x22 # u)
        = Some (v, CHR '','' # CHR '' '' # CHR 0x22 # u)"
      by (rule Cons.prems(2) [of k]) (simp_all add: kv no_digit_start_simps)
    then have "parse_members (encode_basestring_ascii k @ '': '' @ json_dumps v
          @ CHR '','' # CHR '' '' # CHR 0x22 # u)
        = map_option (\<lambda>(ps, t). ((k, v) # ps, t)) (parse_members (CHR 0x22 # u))"
      using starts_value_dumps by (rule parse_members_more)
    then have step: "parse_members (encode_basestring_ascii k @ '': '' @ json_dumps v
          @ CHR '','' # CHR '' '' # CHR 0x22 # u) = Some ((k, v) # kvs, t)"
      unfolding ih by simp
    have eq: "join '', '' (map dumps_member (kv # kvs)) @ CHR ''}'' # t =
        encode_basestring_ascii k @ '': '' @ json_dumps v @ CHR '','' # CHR '' '' # CHR 0x22 # u"
      using False kv u by (simp add: join_Cons dumps_member_def)
    show ?thesis
      unfolding eq using step kv by simp
  qed
qed

lemma dumps_member_eq:
  "(\<lambda>kv. encode_basestring_ascii (fst kv) @ '': '' @ json_dumps (snd kv)) = dumps_member"
  by (rule ext) (simp add: dumps_member_def)

lemma json_dumps_object:
  "json_dumps (JObject kvs) = CHR ''{'' # join '', '' (map dumps_member kvs) @ ''}''"
  using dumps_member_eq by simp

lemma parse_value_array:
  assumes "\<And>v t. v \<in> set vs \<Longrightarrow> no_digit_start t \<Longrightarrow> parse_value (json_dumps v @ t) = Some (v, t)"
  shows "parse_value (json_dumps (JArray vs) @ t) = Some (JArray vs, t)"
proof (cases "vs = []")
  case True
  then show ?thesis by (simp add: skip_ws_id is_ws_def)
next
  case False
  let ?r = "join '', '' (map json_dumps vs) @ CHR '']'' # t"
  have s: "starts_value ?r"
    using False by (rule starts_value_join)
  then obtain d r' where r: "?r = d # r'" and d: "d \<noteq> CHR '']''"
    by (cases ?r) (simp_all add: starts_value_def)
  have e: "parse_elems ?r = Some (vs, t)"
    using False assms by (rule parse_elems_join)
  have "parse_value (CHR ''['' # ?r) = Some (JArray vs, t)"
    using e d starts_value_skip_ws [OF s] unfolding r by simp
  then show ?thesis by simp
qed

lemma parse_value_object:
  assumes "\<And>k v t. (k, v) \<in> set kvs \<Longrightarrow> no_digit_start t \<Longrightarrow>
           parse_value (json_dumps v @ t) = Some (v, t)"
    and "distinct (map fst kvs)"
  shows "parse_value (json_dumps (JObject kvs) @ t) = Some (JObject kvs, t)"
proof (cases "kvs = []")
  case True
  then show ?thesis by (simp add: skip_ws_id is_ws_def)
next
  case False
  let ?r = "join '', '' (map dumps_member kvs) @ CHR ''}'' # t"
  obtain u where u: "?r = CHR 0x22 # u"
    using dumps_member_start [OF False] by blast
  have e: "parse_members ?r = Some (kvs, t)"
    using False assms(1) by (rule parse_members_join)
  have "parse_value (CHR ''{'' # ?r) = Some (JObject kvs, t)"
    using e dict_distinct [OF assms(2)] unfolding u by (simp add: skip_ws_id is_ws_def)
  then show ?thesis unfolding json_dumps_object by simp
qed

lemma parse_value_dumps:
  "wf_json v \<Longrightarrow> no_digit_start t \<Longrightarrow> parse_value (json_dumps v @ t) = Some (v, t)"
proof (induction v arbitrary: t)
  case JNull
  then show ?case by simp
next
  case (JBool b)
  then show ?case by simp
next
  case (JInt i)
  then show ?case by (simp add: parse_value_int)
next
  case (JString s)
  then show ?case by (simp add: parse_value_string)
next
  case (JArray vs)
  have "\<And>v t. v \<in> set vs \<Longrightarrow> no_digit_start t \<Longrightarrow> parse_value (json_dumps v @ t) = Some (v, t)"
    using JArray by (simp add: list_all_iff)
  then show ?case by (rule parse_value_array)
next
  case (JObject kvs)
  have "\<And>k v t. (k, v) \<in> set kvs \<Longrightarrow> no_digit_start t \<Longrightarrow>
      parse_value (json_dumps v @ t) = Some (v, t)"
  proof -
    fix k v t
    assume m: "(k, v) \<in> set kvs" and t: "no_digit_start t"
    have "wf_json v"
      using JObject.prems(1) m by (auto simp add: list_all_iff)
    with JObject.IH [of "(k, v)" v t] m t show "parse_value (json_dumps v @ t) = Some (v, t)"
      by simp
  qed
  moreover have "distinct (map fst kvs)"
    using JObject.prems(1) by simp
  ultimately show ?case by (rule parse_value_object)
qed

theorem json_loads_dumps: "wf_json v \<Longrightarrow> json_loads (json_dumps v) = Some v"
  using parse_value_dumps [of v "[]"] starts_value_skip_ws [OF starts_value_dumps, of v]
  by (simp add: json_loads_def no_digit_start_simps skip_ws_Nil)

subsection \<open>The decoder consumes its input\<close>

text \<open>
  Whatever \<open>parse_value\<close>, \<open>parse_elems\<close> and \<open>parse_members\<close> return, the rest of the
  input is shorter than the input: the tests on the lengths in their definitions never
  fail.
\<close>

lemma scan_int_length: "scan_int s = Some (i, r) \<Longrightarrow> length r < length s"
proof -
  assume a: "scan_int s = Some (i, r)"
  define neg where "neg = (s \<noteq> [] \<and> hd s = CHR ''-'')"
  define r0 where "r0 = (if neg then tl s else s)"
  have l0: "length r0 \<le> length s"
    by (simp add: r0_def)
  have ne: "takeWhile is_digit r0 \<noteq> []"
    using a by (auto simp add: scan_int_def Let_def neg_def r0_def split: if_splits)
  then have r0: "r0 \<noteq> []" by auto
  have "r = tl r0 \<or> r = dropWhile is_digit r0"
    using a by (auto simp add: scan_int_def Let_def neg_def r0_def split: if_splits)
  moreover have "length (tl r0) < length r0"
    using r0 by (cases r0) simp_all
  moreover have "length (dropWhile is_digit r0) < length r0"
    using ne by (cases r0) (auto simp add: le_imp_less_Suc length_dropWhile_le split: if_splits)
  ultimately show ?thesis
    using l0 by auto
qed

lemma parse_consumes:
  "(\<forall>v r. parse_value s = Some (v, r) \<longrightarrow> length r < length s)"
  "(\<forall>vs r. parse_elems s1 = Some (vs, r) \<longrightarrow> length r < length s1)"
  "(\<forall>ps r. parse_members s2 = Some (ps, r) \<longrightarrow> length r < length s2)"
proof (induction s and s1 and s2 rule: parse_value_parse_elems_parse_members.induct)
  case 1
  then show ?case by simp
next
  case (2 c r)
  show ?case
  proof (intro allI impI)
    fix v t
    assume a: "parse_value (c # r) = Some (v, t)"
    consider (str) "c = CHR 0x22" | (obj) "c \<noteq> CHR 0x22" "c = CHR ''{''"
      | (arr) "c \<noteq> CHR 0x22" "c \<noteq> CHR ''{''" "c = CHR ''[''"
      | (lit) "c \<noteq> CHR 0x22" "c \<noteq> CHR ''{''" "c \<noteq> CHR ''[''"
      by blast
    then show "length t < length (c # r)"
    proof cases
      case str
      then obtain k where "scanstring r = Some (k, t)"
        using a by auto
      then show ?thesis
        using scanstring_length by fastforce
    next
      case obj
      then obtain d r' where d: "skip_ws r = d # r'"
        using a by (cases "skip_ws r") auto
      show ?thesis
      proof (cases "d = CHR ''}''")
        case True
        then have "t = r'" using a obj d by simp
        then show ?thesis
          using skip_ws_Cons_length [OF d] by simp
      next
        case False
        then obtain ps where "parse_members (skip_ws r) = Some (ps, t)"
          using a obj d by auto
        then have "length t < length (skip_ws r)"
          using 2(1) [OF obj d False] by simp
        then show ?thesis
          using length_skip_ws [of r] by simp
      qed
    next
      case arr
      then obtain d r' where d: "skip_ws r = d # r'"
        using a by (cases "skip_ws r") auto
      show ?thesis
      proof (cases "d = CHR '']''")
        case True
        then have "t = r'" using a arr d by simp
        then show ?thesis
          using skip_ws_Cons_length [OF d] by simp
      next
        case False
        then obtain vs where "parse_elems (skip_ws r) = Some (vs, t)"
          using a arr d by auto
        then have "length t < length (skip_ws r)"
          using 2(2) [OF arr d False] by simp
        then show ?thesis
          using length_skip_ws [of r] by simp
      qed
    next
      case lit
      then have "t = drop 3 r \<or> t = drop 4 r \<or> (\<exists>i. scan_int (c # r) = Some (i, t))"
        using a by (auto split: if_splits)
      then show ?thesis
        using scan_int_length by fastforce
    qed
  qed
next
  case (3 s)
  show ?case
  proof (intro allI impI)
    fix vs t
    assume a: "parse_elems s = Some (vs, t)"
    then obtain v r where v: "parse_value s = Some (v, r)" and g: "length r < length s"
      by (subst (asm) parse_elems.simps) (auto split: option.splits if_splits)
    then obtain c r' where c: "skip_ws r = c # r'"
      using a by (subst (asm) parse_elems.simps) (auto split: list.splits)
    have l: "length r' < length s"
      using skip_ws_Cons_length [OF c] g by simp
    show "length t < length s"
    proof (cases "c = CHR '',''")
      case True
      then obtain vs' where "parse_elems (skip_ws r') = Some (vs', t)"
        using a v g c by (subst (asm) parse_elems.simps) auto
      then have "length t < length (skip_ws r')"
        using 3(2) [OF v refl g c True] by simp
      then show ?thesis
        using l length_skip_ws [of r'] by simp
    next
      case False
      then have "t = r'"
        using a v g c by (subst (asm) parse_elems.simps) (auto split: if_splits)
      then show ?thesis using l by simp
    qed
  qed
next
  case 4
  then show ?case by simp
next
  case (5 q r)
  show ?case
  proof (intro allI impI)
    fix ps t
    assume a: "parse_members (q # r) = Some (ps, t)"
    then have q: "\<not> q \<noteq> CHR 0x22"
      by (auto split: if_splits)
    obtain k r1 where k: "scanstring r = Some (k, r1)"
      using a q by (auto split: option.splits)
    obtain c r2 where c: "skip_ws r1 = c # r2"
      using a q k by (auto split: list.splits)
    have cc: "\<not> c \<noteq> CHR '':''"
      using a q k c by (auto split: if_splits)
    obtain v r3 where v: "parse_value (skip_ws r2) = Some (v, r3)"
      using a q k c cc by (auto split: option.splits)
    have g: "length r3 < length (skip_ws r2)"
      using a q k c cc v by (auto split: if_splits)
    obtain d r4 where d: "skip_ws r3 = d # r4"
      using a q k c cc v g by (auto split: list.splits)
    have l: "length r4 < length (q # r)"
      using scanstring_length [OF k] skip_ws_Cons_length [OF c] length_skip_ws [of r2] g
        skip_ws_Cons_length [OF d] by simp
    show "length t < length (q # r)"
    proof (cases "d = CHR '',''")
      case True
      then obtain ps' where "parse_members (skip_ws r4) = Some (ps', t)"
        using a q k c cc v g d by auto
      then have "length t < length (skip_ws r4)"
        using 5(2) [OF q k refl c cc v refl g d True] by simp
      then show ?thesis
        using l length_skip_ws [of r4] by simp
    next
      case False
      then have "t = r4"
        using a q k c cc v g d by (auto split: if_splits)
      then show ?thesis using l by simp
    qed
  qed
qed

section \<open>What a call sends and returns\<close>

lemma add_memories_sends:
  "network_after (add_memories self net memories) =
     net\<lparr>sent := sent net @ [add_memories_request self memories]\<rparr>"
  by (simp add: add_memories_def requests_post_def send_def add_memories_request_def)

lemma query_memories_sends:
  "network_after (query_memories self net query limit filters) =
     net\<lparr>sent := sent net @ [query_memories_request self query limit filters]\<rparr>"
  by (simp add: query_memories_def requests_get_def send_def query_memories_request_def Let_def)

lemma add_memories_returned:
  "returned (add_memories self net memories) =
     (case respond net (add_memories_request self memories) of
        Inl e \<Rightarrow> Inl e
      | Inr r \<Rightarrow>
          (case raise_for_status r of
             Inl e \<Rightarrow> Inl e
           | Inr _ \<Rightarrow>
               (case response_json r of
                  Inl e \<Rightarrow> Inl e
                | Inr data \<Rightarrow> dict_get data (lit ''stored_ids'') (PyList []))))"
  by (simp add: add_memories_def requests_post_def send_def add_memories_request_def)

lemma query_memories_returned:
  "returned (query_memories self net query limit filters) =
     (case respond net (query_memories_request self query limit filters) of
        Inl e \<Rightarrow> Inl e
      | Inr r \<Rightarrow>
          (case raise_for_status r of
             Inl e \<Rightarrow> Inl e
           | Inr _ \<Rightarrow>
               (case response_json r of
                  Inl e \<Rightarrow> Inl e
                | Inr data \<Rightarrow> dict_get data (lit ''hits'') (PyList []))))"
  by (simp add: query_memories_def requests_get_def send_def query_memories_request_def Let_def)

text \<open>
  Two literals are the same string exactly when they are the same literal.
\<close>

lemma lit_eq_iff [simp]: "(lit a = lit b) = (a = b)"
  by (simp add: lit_def inj_map_eq_map inj_of_char)

text \<open>
  When \<^verbatim>\<open>response.json()\<close> raises, the call raises the same; when it returns a value
  that is not a dictionary, the value has no \<^verbatim>\<open>get\<close> and the call raises
  \<open>AttributeError\<close>.
\<close>

lemma undecodable_body_raises:
  assumes "\<not> (400 \<le> status_code r \<and> status_code r < 600)"
    and "response_json r = Inl e"
  shows "respond net (add_memories_request self memories) = Inr r \<Longrightarrow>
           returned (add_memories self net memories) = Inl e"
    and "respond net (query_memories_request self query limit filters) = Inr r \<Longrightarrow>
           returned (query_memories self net query limit filters) = Inl e"
  using assms
  by (auto simp add: add_memories_returned query_memories_returned raise_for_status_def)

lemma non_dict_body_raises:
  assumes "\<not> (400 \<le> status_code r \<and> status_code r < 600)"
    and "response_json r = Inr v"
    and "\<forall>kvs. v \<noteq> PyDict kvs"
  shows "respond net (add_memories_request self memories) = Inr r \<Longrightarrow>
           returned (add_memories self net memories) = Inl AttributeError"
    and "respond net (query_memories_request self query limit filters) = Inr r \<Longrightarrow>
           returned (query_memories self net query limit filters) = Inl AttributeError"
  using assms
  by (cases v; simp add: add_memories_returned query_memories_returned raise_for_status_def)+

section \<open>Error statuses\<close>

text \<open>
  Claim C1. For every HTTP response whose status code indicates a client or server error
  (4xx or 5xx), both \<open>add_memories\<close> and \<open>query_memories\<close> raise an \<open>HTTPError\<close> that carries
  the response, hence its status code and its body, and return no result value.
\<close>

theorem error_status_raises_HTTPError:
  assumes "400 \<le> status_code r" and "status_code r < 600"
  shows "(respond net (add_memories_request self memories) = Inr r \<longrightarrow>
            returned (add_memories self net memories) = Inl (HTTPError r)) \<and>
         (respond net (query_memories_request self query limit filters) = Inr r \<longrightarrow>
            returned (query_memories self net query limit filters) = Inl (HTTPError r))"
  using assms
  by (simp add: add_memories_returned query_memories_returned raise_for_status_def)

theorem error_status_raises_HTTPError_witness:
  "returned (add_memories (MemoryMeshClient_init ''key'' None)
       (mocked_server 404 ''Not Found'' None) [])
     = Inl (HTTPError \<lparr>status_code = 404, content = ''Not Found'', decoded = None\<rparr>) \<and>
   returned (query_memories (MemoryMeshClient_init ''key'' None)
       (mocked_server 404 ''Not Found'' None) ''foo'' None None)
     = Inl (HTTPError \<lparr>status_code = 404, content = ''Not Found'', decoded = None\<rparr>)"
  using error_status_raises_HTTPError
    [of "\<lparr>status_code = 404, content = ''Not Found'', decoded = None\<rparr>"
      "mocked_server 404 ''Not Found'' None" "MemoryMeshClient_init ''key'' None" "[]"
      "''foo''" None None]
  by (simp add: mocked_server_def)

section \<open>The field a successful call returns\<close>

text \<open>
  Claim C2, as amended. For every response that is not an error and whose body decodes to
  a JSON object (\<^verbatim>\<open>response.json()\<close> returns a dictionary), \<open>add_memories\<close> returns the
  value of the field \<open>stored_ids\<close> as the server sent it, with no coercion, when the field
  is present, and the empty sequence when it is absent.
\<close>

theorem add_memories_returns_stored_ids:
  assumes "respond net (add_memories_request self memories) = Inr r"
    and "\<not> (400 \<le> status_code r \<and> status_code r < 600)"
    and "response_json r = Inr (PyDict kvs)"
  shows "returned (add_memories self net memories) =
           Inr (case map_of kvs (lit ''stored_ids'') of None \<Rightarrow> PyList [] | Some v \<Rightarrow> v)"
  using assms
  by (simp add: add_memories_returned raise_for_status_def)

text \<open>
  Instances: the body \<^verbatim>\<open>{"stored_ids": ["m1", "m2"]}\<close>; a body with a float beside the
  field; a body in UTF-8 whose identifier has a character outside ASCII (the bytes C3 A9
  are the one code point 233); a body without the field.
\<close>

theorem add_memories_returns_stored_ids_witness:
  \<open>returned (add_memories (MemoryMeshClient_init ''key'' None)
       (mocked_server 200 ''{"stored_ids": ["m1", "m2"]}''
          (Some (PyDict [(lit ''stored_ids'', PyList [PyStr (lit ''m1''), PyStr (lit ''m2'')])])))
       [])
     = Inr (PyList [PyStr (lit ''m1''), PyStr (lit ''m2'')]) \<and>
   returned (add_memories (MemoryMeshClient_init ''key'' None)
       (mocked_server 200 ''{"stored_ids": ["m1"], "took_ms": 1.5}''
          (Some (PyDict [(lit ''stored_ids'', PyList [PyStr (lit ''m1'')]),
                         (lit ''took_ms'', PyFloat ''1.5'')])))
       [])
     = Inr (PyList [PyStr (lit ''m1'')]) \<and>
   returned (add_memories (MemoryMeshClient_init ''key'' None)
       (mocked_server 200 (''{"stored_ids": ["caf'' @ [CHR 0xC3, CHR 0xA9] @ ''"]}'')
          (Some (PyDict [(lit ''stored_ids'', PyList [PyStr [99, 97, 102, 233]])])))
       [])
     = Inr (PyList [PyStr [99, 97, 102, 233]]) \<and>
   returned (add_memories (MemoryMeshClient_init ''key'' None)
       (mocked_server 200 ''{"ok": true}'' (Some (PyDict [(lit ''ok'', PyBool True)])))
       [])
     = Inr (PyList [])\<close>
  using
    add_memories_returns_stored_ids
      [of \<open>mocked_server 200 ''{"stored_ids": ["m1", "m2"]}''
          (Some (PyDict [(lit ''stored_ids'', PyList [PyStr (lit ''m1''), PyStr (lit ''m2'')])]))\<close>
        "MemoryMeshClient_init ''key'' None" "[]"
        \<open>\<lparr>status_code = 200, content = ''{"stored_ids": ["m1", "m2"]}'',
          decoded = Some (PyDict [(lit ''stored_ids'',
            PyList [PyStr (lit ''m1''), PyStr (lit ''m2'')])])\<rparr>\<close>
        "[(lit ''stored_ids'', PyList [PyStr (lit ''m1''), PyStr (lit ''m2'')])]"]
    add_memories_returns_stored_ids
      [of \<open>mocked_server 200 ''{"stored_ids": ["m1"], "took_ms": 1.5}''
          (Some (PyDict [(lit ''stored_ids'', PyList [PyStr (lit ''m1'')]),
                         (lit ''took_ms'', PyFloat ''1.5'')]))\<close>
        "MemoryMeshClient_init ''key'' None" "[]"
        \<open>\<lparr>status_code = 200, content = ''{"stored_ids": ["m1"], "took_ms": 1.5}'',
          decoded = Some (PyDict [(lit ''stored_ids'', PyList [PyStr (lit ''m1'')]),
                                  (lit ''took_ms'', PyFloat ''1.5'')])\<rparr>\<close>
        "[(lit ''stored_ids'', PyList [PyStr (lit ''m1'')]), (lit ''took_ms'', PyFloat ''1.5'')]"]
    add_memories_returns_stored_ids
      [of \<open>mocked_server 200 (''{"stored_ids": ["caf'' @ [CHR 0xC3, CHR 0xA9] @ ''"]}'')
          (Some (PyDict [(lit ''stored_ids'', PyList [PyStr [99, 97, 102, 233]])]))\<close>
        "MemoryMeshClient_init ''key'' None" "[]"
        \<open>\<lparr>status_code = 200,
          content = ''{"stored_ids": ["caf'' @ [CHR 0xC3, CHR 0xA9] @ ''"]}'',
          decoded = Some (PyDict [(lit ''stored_ids'', PyList [PyStr [99, 97, 102, 233]])])\<rparr>\<close>
        "[(lit ''stored_ids'', PyList [PyStr [99, 97, 102, 233]])]"]
    add_memories_returns_stored_ids
      [of \<open>mocked_server 200 ''{"ok": true}'' (Some (PyDict [(lit ''ok'', PyBool True)]))\<close>
        "MemoryMeshClient_init ''key'' None" "[]"
        \<open>\<lparr>status_code = 200, content = ''{"ok": true}'',
          decoded = Some (PyDict [(lit ''ok'', PyBool True)])\<rparr>\<close>
        "[(lit ''ok'', PyBool True)]"]
  by (simp add: mocked_server_def response_json_def)

text \<open>
  Claim C2 as the specification states it has, for every successful response, the value
  of the field returned coerced to a sequence of strings, or the empty sequence. The
  code coerces nothing and needs the body to be a JSON object. With status 200: for the
  body \<^verbatim>\<open>{"stored_ids": [1, 2]}\<close> the call returns the list of the integers 1 and 2,
  which is not a sequence of strings; for the body \<^verbatim>\<open>[]\<close>, which is JSON and has no
  field, it raises \<open>AttributeError\<close>; for the body \<^verbatim>\<open><html>\<close>, which is not JSON, it
  raises \<open>JSONDecodeError\<close>.
\<close>

theorem add_memories_as_stated_counterexample:
  \<open>returned (add_memories (MemoryMeshClient_init ''key'' None)
       (mocked_server 200 ''{"stored_ids": [1, 2]}''
          (Some (PyDict [(lit ''stored_ids'', PyList [PyInt 1, PyInt 2])])))
       [JObject [(''text'', JString ''a'')]])
     = Inr (PyList [PyInt 1, PyInt 2]) \<and>
   \<not> is_string_sequence (PyList [PyInt 1, PyInt 2]) \<and>
   returned (add_memories (MemoryMeshClient_init ''key'' None)
       (mocked_server 200 ''[]'' (Some (PyList [])))
       [JObject [(''text'', JString ''a'')]])
     = Inl AttributeError \<and>
   returned (add_memories (MemoryMeshClient_init ''key'' None)
       (mocked_server 200 ''<html>'' None)
       [JObject [(''text'', JString ''a'')]])
     = Inl JSONDecodeError\<close>
  by (simp add: add_memories_returned raise_for_status_def response_json_def mocked_server_def)

text \<open>
  Claim C3, as amended. For every response that is not an error and whose body decodes to
  a JSON object (\<^verbatim>\<open>response.json()\<close> returns a dictionary), \<open>query_memories\<close> returns
  exactly the value of the field \<open>hits\<close> when it is present, in the server's order, and
  the empty sequence, not a failure, when it is absent.
\<close>

theorem query_memories_returns_hits:
  assumes "respond net (query_memories_request self query limit filters) = Inr r"
    and "\<not> (400 \<le> status_code r \<and> status_code r < 600)"
    and "response_json r = Inr (PyDict kvs)"
  shows "returned (query_memories self net query limit filters) =
           Inr (case map_of kvs (lit ''hits'') of None \<Rightarrow> PyList [] | Some v \<Rightarrow> v)"
  using assms
  by (simp add: query_memories_returned raise_for_status_def)

text \<open>
  Instances: the body \<^verbatim>\<open>{"hits": [{"id": "a"}, {"id": "b"}]}\<close>; a body with a float beside
  the field; a body without the field.
\<close>

theorem query_memories_returns_hits_witness:
  \<open>returned (query_memories (MemoryMeshClient_init ''key'' None)
       (mocked_server 200 ''{"hits": [{"id": "a"}, {"id": "b"}]}''
          (Some (PyDict [(lit ''hits'', PyList [PyDict [(lit ''id'', PyStr (lit ''a''))],
                                                PyDict [(lit ''id'', PyStr (lit ''b''))]])])))
       ''foo'' None None)
     = Inr (PyList [PyDict [(lit ''id'', PyStr (lit ''a''))],
                    PyDict [(lit ''id'', PyStr (lit ''b''))]]) \<and>
   returned (query_memories (MemoryMeshClient_init ''key'' None)
       (mocked_server 200 ''{"hits": [], "score": 1.5}''
          (Some (PyDict [(lit ''hits'', PyList []), (lit ''score'', PyFloat ''1.5'')])))
       ''foo'' None None)
     = Inr (PyList []) \<and>
   returned (query_memories (MemoryMeshClient_init ''key'' None)
       (mocked_server 200 ''{"stored_ids": ["m1", "m2"]}''
          (Some (PyDict [(lit ''stored_ids'', PyList [PyStr (lit ''m1''), PyStr (lit ''m2'')])])))
       ''foo'' None None)
     = Inr (PyList [])\<close>
  using
    query_memories_returns_hits
      [of \<open>mocked_server 200 ''{"hits": [{"id": "a"}, {"id": "b"}]}''
          (Some (PyDict [(lit ''hits'', PyList [PyDict [(lit ''id'', PyStr (lit ''a''))],
                                                PyDict [(lit ''id'', PyStr (lit ''b''))]])]))\<close>
        "MemoryMeshClient_init ''key'' None" "''foo''" None None
        \<open>\<lparr>status_code = 200, content = ''{"hits": [{"id": "a"}, {"id": "b"}]}'',
          decoded = Some (PyDict [(lit ''hits'',
            PyList [PyDict [(lit ''id'', PyStr (lit ''a''))],
                    PyDict [(lit ''id'', PyStr (lit ''b''))]])])\<rparr>\<close>
        "[(lit ''hits'', PyList [PyDict [(lit ''id'', PyStr (lit ''a''))],
                                 PyDict [(lit ''id'', PyStr (lit ''b''))]])]"]
    query_memories_returns_hits
      [of \<open>mocked_server 200 ''{"hits": [], "score": 1.5}''
          (Some (PyDict [(lit ''hits'', PyList []), (lit ''score'', PyFloat ''1.5'')]))\<close>
        "MemoryMeshClient_init ''key'' None" "''foo''" None None
        \<open>\<lparr>status_code = 200, content = ''{"hits": [], "score": 1.5}'',
          decoded = Some (PyDict [(lit ''hits'', PyList []),
                                  (lit ''score'', PyFloat ''1.5'')])\<rparr>\<close>
        "[(lit ''hits'', PyList []), (lit ''score'', PyFloat ''1.5'')]"]
    query_memories_returns_hits
      [of \<open>mocked_server 200 ''{"stored_ids": ["m1", "m2"]}''
          (Some (PyDict [(lit ''stored_ids'', PyList [PyStr (lit ''m1''), PyStr (lit ''m2'')])]))\<close>
        "MemoryMeshClient_init ''key'' None" "''foo''" None None
        \<open>\<lparr>status_code = 200, content = ''{"stored_ids": ["m1", "m2"]}'',
          decoded = Some (PyDict [(lit ''stored_ids'',
            PyList [PyStr (lit ''m1''), PyStr (lit ''m2'')])])\<rparr>\<close>
        "[(lit ''stored_ids'', PyList [PyStr (lit ''m1''), PyStr (lit ''m2'')])]"]
  by (simp add: mocked_server_def response_json_def)

text \<open>
  Claim C3 as the specification states it has, for every successful response, the value
  of the field or, the field being absent, the empty sequence and no failure. The code
  needs the body to be a JSON object. With status 200: for the body \<^verbatim>\<open>[]\<close> and for the
  body \<^verbatim>\<open>null\<close>, which are JSON and have no field \<open>hits\<close>, the call raises
  \<open>AttributeError\<close>; for the body \<^verbatim>\<open><html>\<close>, which is not JSON, it raises
  \<open>JSONDecodeError\<close>.
\<close>

theorem query_memories_as_stated_counterexample:
  \<open>returned (query_memories (MemoryMeshClient_init ''key'' None)
       (mocked_server 200 ''[]'' (Some (PyList []))) ''foo'' None None)
     = Inl AttributeError \<and>
   returned (query_memories (MemoryMeshClient_init ''key'' None)
       (mocked_server 200 ''null'' (Some PyNone)) ''foo'' None None)
     = Inl AttributeError \<and>
   returned (query_memories (MemoryMeshClient_init ''key'' None)
       (mocked_server 200 ''<html>'' None) ''foo'' None None)
     = Inl JSONDecodeError\<close>
  by (simp add: query_memories_returned raise_for_status_def response_json_def mocked_server_def)

text \<open>
  Claim C10. The empty sequence is the default only for an absent field: when
  \<open>stored_ids\<close> (for \<open>add_memories\<close>) or \<open>hits\<close> (for \<open>query_memories\<close>) is present with the
  value null, the call returns null, which is not the empty sequence.
\<close>

theorem null_field_is_returned:
  assumes "\<not> (400 \<le> status_code r \<and> status_code r < 600)"
    and "response_json r = Inr (PyDict kvs)"
  shows "(respond net (add_memories_request self memories) = Inr r \<and>
            map_of kvs (lit ''stored_ids'') = Some PyNone \<longrightarrow>
            returned (add_memories self net memories) = Inr PyNone) \<and>
         (respond net (query_memories_request self query limit filters) = Inr r \<and>
            map_of kvs (lit ''hits'') = Some PyNone \<longrightarrow>
            returned (query_memories self net query limit filters) = Inr PyNone) \<and>
         PyNone \<noteq> PyList []"
  using assms
  by (auto simp add: add_memories_returned query_memories_returned raise_for_status_def)

theorem null_field_is_returned_witness:
  \<open>returned (add_memories (MemoryMeshClient_init ''key'' None)
       (mocked_server 200 ''{"stored_ids": null}''
          (Some (PyDict [(lit ''stored_ids'', PyNone)]))) [])
     = Inr PyNone \<and>
   returned (query_memories (MemoryMeshClient_init ''key'' None)
       (mocked_server 200 ''{"hits": null}''
          (Some (PyDict [(lit ''hits'', PyNone)]))) ''foo'' None None)
     = Inr PyNone\<close>
  using
    null_field_is_returned
      [of \<open>\<lparr>status_code = 200, content = ''{"stored_ids": null}'',
          decoded = Some (PyDict [(lit ''stored_ids'', PyNone)])\<rparr>\<close>
        "[(lit ''stored_ids'', PyNone)]"
        \<open>mocked_server 200 ''{"stored_ids": null}''
          (Some (PyDict [(lit ''stored_ids'', PyNone)]))\<close>
        "MemoryMeshClient_init ''key'' None" "[]" "''foo''" None None]
    null_field_is_returned
      [of \<open>\<lparr>status_code = 200, content = ''{"hits": null}'',
          decoded = Some (PyDict [(lit ''hits'', PyNone)])\<rparr>\<close>
        "[(lit ''hits'', PyNone)]"
        \<open>mocked_server 200 ''{"hits": null}'' (Some (PyDict [(lit ''hits'', PyNone)]))\<close>
        "MemoryMeshClient_init ''key'' None" "[]" "''foo''" None None]
  by (simp add: mocked_server_def response_json_def)

section \<open>The requests a call sends\<close>

text \<open>Values of the test cases, encoded.\<close>

lemma dumps_type_note:
  \<open>json_dumps (JObject [(''type'', JString ''note'')]) = ''{"type": "note"}''\<close>
  by code_simp

lemma dumps_memories_empty:
  \<open>json_dumps (JObject [(''memories'', JArray [])]) = ''{"memories": []}''\<close>
  by code_simp

lemma dumps_memories_hello:
  \<open>json_dumps (JObject [(''memories'',
       JArray [JObject [(''text'', JString ''hello''), (''rank'', JInt 3)]])]) =
     ''{"memories": [{"text": "hello", "rank": 3}]}''\<close>
  by code_simp

text \<open>
  Claim C4. For every sequence of memory records, the empty one too, \<open>add_memories\<close> sends
  one request whose \<^verbatim>\<open>json\<close> argument is the object with the single key \<open>memories\<close> and
  the input sequence, unchanged, as its value; the body that goes on the wire for it
  decodes to that same object: JSON encoding followed by decoding is the identity on
  it. The records are Python values, so their dictionaries hold each key once.
\<close>

theorem add_memories_body_round_trip:
  assumes "list_all wf_json memories"
  shows "sent (network_after (add_memories self net memories)) =
           sent net @ [add_memories_request self memories] \<and>
         json (add_memories_request self memories) =
           Some (JObject [(''memories'', JArray memories)]) \<and>
         Option.bind (body (add_memories_request self memories)) json_loads =
           Some (JObject [(''memories'', JArray memories)])"
proof -
  have "wf_json (JObject [(''memories'', JArray memories)])"
    using assms by simp
  then have "json_loads (json_dumps (JObject [(''memories'', JArray memories)])) =
      Some (JObject [(''memories'', JArray memories)])"
    by (rule json_loads_dumps)
  then show ?thesis
    by (simp add: add_memories_sends body_def add_memories_request_def)
qed

theorem add_memories_body_round_trip_witness:
  \<open>body (add_memories_request (MemoryMeshClient_init ''key'' None)
       [JObject [(''text'', JString ''hello''), (''rank'', JInt 3)]])
     = Some ''{"memories": [{"text": "hello", "rank": 3}]}'' \<and>
   json_loads ''{"memories": [{"text": "hello", "rank": 3}]}''
     = Some (JObject [(''memories'',
         JArray [JObject [(''text'', JString ''hello''), (''rank'', JInt 3)]])]) \<and>
   body (add_memories_request (MemoryMeshClient_init ''key'' None) [])
     = Some ''{"memories": []}'' \<and>
   json_loads ''{"memories": []}'' = Some (JObject [(''memories'', JArray [])])\<close>
proof -
  have a: "list_all wf_json [JObject [(''text'', JString ''hello''), (''rank'', JInt 3)]]"
    by simp
  have b: "list_all wf_json []"
    by simp
  have ba: \<open>body (add_memories_request (MemoryMeshClient_init ''key'' None)
       [JObject [(''text'', JString ''hello''), (''rank'', JInt 3)]])
     = Some ''{"memories": [{"text": "hello", "rank": 3}]}''\<close>
    using dumps_memories_hello by (simp add: body_def add_memories_request_def)
  have bb: \<open>body (add_memories_request (MemoryMeshClient_init ''key'' None) [])
     = Some ''{"memories": []}''\<close>
    using dumps_memories_empty by (simp add: body_def add_memories_request_def)
  have la: \<open>json_loads ''{"memories": [{"text": "hello", "rank": 3}]}''
     = Some (JObject [(''memories'',
         JArray [JObject [(''text'', JString ''hello''), (''rank'', JInt 3)]])])\<close>
    using add_memories_body_round_trip [OF a, of "MemoryMeshClient_init ''key'' None"
        "mocked_server 200 [] None"]
    unfolding ba by simp
  have lb: \<open>json_loads ''{"memories": []}'' = Some (JObject [(''memories'', JArray [])])\<close>
    using add_memories_body_round_trip [OF b, of "MemoryMeshClient_init ''key'' None"
        "mocked_server 200 [] None"]
    unfolding bb by simp
  show ?thesis
    using ba bb la lb by simp
qed

text \<open>
  Claim C5. Every request of \<open>query_memories\<close> has the query parameters \<open>q\<close> and \<open>limit\<close>.
  The parameter \<open>filters\<close> is there exactly when the filters are neither omitted nor
  empty; its value is then the JSON encoding of the filters, and decoding that value
  gives the filters back.
\<close>

theorem query_memories_sends_params:
  "sent (network_after (query_memories self net query limit filters)) =
     sent net @ [query_memories_request self query limit filters] \<and>
   map_of (params (query_memories_request self query limit filters)) ''q'' = Some (PStr query) \<and>
   map_of (params (query_memories_request self query limit filters)) ''limit'' =
     Some (PInt (case limit of None \<Rightarrow> 10 | Some n \<Rightarrow> n)) \<and>
   (map_of (params (query_memories_request self query limit filters)) ''filters'' = None) =
     (filters = None \<or> filters = Some []) \<and>
   (\<forall>f. filters = Some f \<and> f \<noteq> [] \<longrightarrow>
      map_of (params (query_memories_request self query limit filters)) ''filters'' =
        Some (PStr (json_dumps (JObject f)))) \<and>
   (\<forall>f s. filters = Some f \<and> f \<noteq> [] \<and> wf_json (JObject f) \<and>
      map_of (params (query_memories_request self query limit filters)) ''filters'' =
        Some (PStr s) \<longrightarrow>
      json_loads s = Some (JObject f))"
proof (cases filters)
  case None
  then show ?thesis
    by (simp add: query_memories_sends query_memories_request_def query_params_def)
next
  case (Some f)
  show ?thesis
  proof (cases "f = []")
    case True
    then show ?thesis
      using Some by (simp add: query_memories_sends query_memories_request_def query_params_def)
  next
    case False
    have "wf_json (JObject f) \<Longrightarrow> json_loads (json_dumps (JObject f)) = Some (JObject f)"
      by (rule json_loads_dumps)
    then show ?thesis
      using Some False
      by (auto simp add: query_memories_sends query_memories_request_def query_params_def)
  qed
qed

theorem query_memories_sends_params_witness:
  \<open>params (query_memories_request (MemoryMeshClient_init ''key'' None) ''foo'' None
       (Some [(''type'', JString ''note'')]))
     = [(''q'', PStr ''foo''), (''limit'', PInt 10), (''filters'', PStr ''{"type": "note"}'')] \<and>
   json_loads ''{"type": "note"}'' = Some (JObject [(''type'', JString ''note'')]) \<and>
   map_of (params (query_memories_request (MemoryMeshClient_init ''key'' None) ''foo'' None None))
     ''filters'' = None\<close>
proof -
  have p: \<open>params (query_memories_request (MemoryMeshClient_init ''key'' None) ''foo'' None
       (Some [(''type'', JString ''note'')]))
     = [(''q'', PStr ''foo''), (''limit'', PInt 10), (''filters'', PStr ''{"type": "note"}'')]\<close>
    using dumps_type_note by (simp add: query_memories_request_def query_params_def)
  have w: "wf_json (JObject [(''type'', JString ''note'')])"
    by simp
  have l: \<open>json_loads ''{"type": "note"}'' = Some (JObject [(''type'', JString ''note'')])\<close>
    using query_memories_sends_params [of "MemoryMeshClient_init ''key'' None"
        "mocked_server 200 [] None" "''foo''" None "Some [(''type'', JString ''note'')]"] w
    unfolding p by simp
  have n: "map_of (params (query_memories_request (MemoryMeshClient_init ''key'' None)
      ''foo'' None None)) ''filters'' = None"
    using query_memories_sends_params [of "MemoryMeshClient_init ''key'' None"
        "mocked_server 200 [] None" "''foo''" None None]
    by simp
  show ?thesis
    using p l n by simp
qed

section \<open>Construction and the client's state\<close>

text \<open>
  Claim C6, as amended. Construction takes an API key and an optional base URL and
  validates neither. It stores the key verbatim, stores a base URL that is not empty
  verbatim, and takes the fixed default address when the base URL is omitted or empty.
\<close>

theorem init_stores_key_and_base_url:
  "api_key (MemoryMeshClient_init key u) = key \<and>
   (\<forall>b. u = Some b \<and> b \<noteq> [] \<longrightarrow> base_url (MemoryMeshClient_init key u) = b) \<and>
   (u = None \<or> u = Some [] \<longrightarrow>
      base_url (MemoryMeshClient_init key u) = ''https://api.example.com'')"
  by (auto simp add: MemoryMeshClient_init_def)

theorem init_stores_key_and_base_url_witness:
  "api_key (MemoryMeshClient_init [] (Some ''not a url'')) = [] \<and>
   base_url (MemoryMeshClient_init [] (Some ''not a url'')) = ''not a url'' \<and>
   base_url (MemoryMeshClient_init ''key'' None) = ''https://api.example.com''"
  using init_stores_key_and_base_url [of "[]" "Some ''not a url''"]
    init_stores_key_and_base_url [of "''key''" None]
  by simp

text \<open>
  Claim C6 as the specification states it has the base URL stored verbatim whenever it
  is given, the default being taken only when it is omitted. An empty base URL is given
  and is not stored: the client holds the default address instead.
\<close>

theorem init_empty_base_url_counterexample:
  "base_url (MemoryMeshClient_init ''key'' (Some [])) \<noteq> []"
  by (simp add: MemoryMeshClient_init_def)

text \<open>
  Claim C9. A base URL that is the empty string, or the omitted base URL (the falsy
  values of an optional string), makes the client use the fixed default base URL
  \<^verbatim>\<open>https://api.example.com\<close>: the default is taken on falsiness, not only on omission.
\<close>

theorem init_falsy_base_url_defaults:
  "base_url (MemoryMeshClient_init key (Some [])) = ''https://api.example.com'' \<and>
   base_url (MemoryMeshClient_init key None) = ''https://api.example.com''"
  by (simp add: MemoryMeshClient_init_def)

text \<open>
  Claim C7. Every call issues exactly one request, and that request carries the header
  \<^verbatim>\<open>Authorization: Bearer <api_key>\<close> built from the key given at construction; the POST of
  \<open>add_memories\<close> carries \<^verbatim>\<open>Content-Type: application/json\<close> as well.
\<close>

theorem requests_carry_bearer_token:
  "sent (network_after (add_memories (MemoryMeshClient_init key u) net memories)) =
     sent net @ [add_memories_request (MemoryMeshClient_init key u) memories] \<and>
   map_of (headers (add_memories_request (MemoryMeshClient_init key u) memories))
     ''Authorization'' = Some (''Bearer '' @ key) \<and>
   map_of (headers (add_memories_request (MemoryMeshClient_init key u) memories))
     ''Content-Type'' = Some ''application/json'' \<and>
   verb (add_memories_request (MemoryMeshClient_init key u) memories) = POST \<and>
   sent (network_after (query_memories (MemoryMeshClient_init key u) net query limit filters)) =
     sent net @ [query_memories_request (MemoryMeshClient_init key u) query limit filters] \<and>
   map_of (headers (query_memories_request (MemoryMeshClient_init key u) query limit filters))
     ''Authorization'' = Some (''Bearer '' @ key)"
  by (simp add: add_memories_sends query_memories_sends add_memories_request_def
      query_memories_request_def MemoryMeshClient_init_def)

text \<open>
  Claim C8. The client is stateless between calls: a call to \<open>add_memories\<close> or to
  \<open>query_memories\<close> leaves the client, so its fields \<open>api_key\<close> and \<open>base_url\<close>, as it
  was, whatever the network answers and whether the call returns or raises.
\<close>

theorem calls_leave_client_unchanged:
  "client_after (add_memories self net memories) = self \<and>
   api_key (client_after (add_memories self net memories)) = api_key self \<and>
   base_url (client_after (add_memories self net memories)) = base_url self \<and>
   client_after (query_memories self net query limit filters) = self \<and>
   api_key (client_after (query_memories self net query limit filters)) = api_key self \<and>
   base_url (client_after (query_memories self net query limit filters)) = base_url self"
  by (simp add: add_memories_def query_memories_def Let_def split: prod.split)

end
